theory Spec2Isabelle
  imports Complex_Main
begin

section \<open>Values of the server\<close>

text \<open>
  The server (\<^verbatim>\<open>src/packages/server/index.ts\<close>) is one Node.js module: four module-level
  variables (\<^verbatim>\<open>activeConnection\<close>, \<^verbatim>\<open>messageQueue\<close>, \<^verbatim>\<open>activeStream\<close>,
  \<^verbatim>\<open>queryConfig\<close>), an asynchronous generator, an asynchronous consumer of the agent's
  output and the handlers of the HTTP and WebSocket servers. Everything runs on one event
  loop, so each handler (and each stretch of a coroutine between two suspension points)
  runs to completion; the model is a step function over the events the loop delivers.

  What the libraries do is taken as follows: \<^verbatim>\<open>query\<close> returns a stream (it does not
  throw), \<^verbatim>\<open>ws.send\<close>, \<^verbatim>\<open>ws.close\<close> and the \<^verbatim>\<open>JSON.stringify\<close> of an envelope do not
  throw, and an item or an error of the
  agent's stream is an event at the moment the \<^verbatim>\<open>for await\<close> loop receives it. The
  lines written to the console are not modelled.

  A JSON value is what \<^verbatim>\<open>JSON.parse\<close> returns. An object is the list of its own
  properties (each key once), looked up with \<open>map_of\<close>. A number is a double: a
  rational, or one of the two infinities that \<^verbatim>\<open>JSON.parse\<close> returns for a numeral beyond
  the range of the doubles (\<^verbatim>\<open>1e400\<close>, \<^verbatim>\<open>-1e400\<close>). The server never computes with a
  number; it tests one for truthiness and hands it on, and there the two zeros of the
  doubles behave alike.
\<close>

datatype number = Finite rat | PlusInfinity | MinusInfinity

datatype json =
    JNull
  | JBool bool
  | JNum number
  | JStr string
  | JArr "json list"
  | JObj "(string \<times> json) list"

text \<open>
  A value thrown and caught: an instance of \<^verbatim>\<open>Error\<close> with its message, or any other
  value. The catch block reads \<^verbatim>\<open>error instanceof Error ? error.message : 'Unknown error'\<close>.
\<close>

datatype thrown = ErrorObject string | OtherValue

definition error_message :: "thrown \<Rightarrow> string" where
  "error_message e = (case e of ErrorObject m \<Rightarrow> m | OtherValue \<Rightarrow> ''Unknown error'')"

text \<open>
  The values of the \<^verbatim>\<open>options\<close> object literal of \<^verbatim>\<open>processMessages\<close>: JSON values taken
  from the stored configuration, \<^verbatim>\<open>undefined\<close> (an unset \<^verbatim>\<open>process.env.PATH\<close>, a
  missing property), the \<^verbatim>\<open>stderr\<close> callback, and the \<^verbatim>\<open>env\<close> object literal.
\<close>

datatype jsval =
    Undefined
  | Json json
  | StderrCallback
  | ObjectLit "(string \<times> jsval) list"

type_synonym options = "string \<rightharpoonup> jsval"

text \<open>JavaScript truthiness, as \<^verbatim>\<open>&&\<close> and \<^verbatim>\<open>if\<close> read a value.\<close>

fun truthy :: "jsval \<Rightarrow> bool" where
  "truthy Undefined = False"
| "truthy (Json JNull) = False"
| "truthy (Json (JBool b)) = b"
| "truthy (Json (JNum n)) = (n \<noteq> Finite 0)"
| "truthy (Json (JStr s)) = (s \<noteq> [])"
| "truthy (Json (JArr xs)) = True"
| "truthy (Json (JObj kvs)) = True"
| "truthy StderrCallback = True"
| "truthy (ObjectLit kvs) = True"

text \<open>
  The property name of an array index (\<^verbatim>\<open>ToString\<close> of the index): its decimal digits.
\<close>

definition decimal_digit :: "nat \<Rightarrow> char" where
  "decimal_digit d = ''0123456789'' ! d"

fun index_key :: "nat \<Rightarrow> string" where
  "index_key n =
     (if 10 \<le> n then index_key (n div 10) @ [decimal_digit (n mod 10)]
      else [decimal_digit n])"

text \<open>
  The own enumerable properties that the spread \<^verbatim>\<open>...queryConfig\<close> copies into an object
  literal: the properties of an object, the indexed elements of an array, the indexed
  characters of a string, nothing for \<^verbatim>\<open>null\<close>, a number or a boolean.
\<close>

fun own_props :: "json \<Rightarrow> options" where
  "own_props (JObj kvs) = (\<lambda>k. map_option Json (map_of kvs k))"
| "own_props (JArr xs) = map_of (zip (map index_key [0..<length xs]) (map Json xs))"
| "own_props (JStr s) =
     map_of (zip (map index_key [0..<length s]) (map (\<lambda>c. Json (JStr [c])) s))"
| "own_props JNull = Map.empty"
| "own_props (JBool b) = Map.empty"
| "own_props (JNum n) = Map.empty"

text \<open>
  The property read \<^verbatim>\<open>queryConfig.anthropicApiKey\<close>: on \<^verbatim>\<open>null\<close> it throws a TypeError
  (the message is the engine's; V8's wording); on an object
  it is the own property or \<^verbatim>\<open>undefined\<close>; arrays, strings, numbers and booleans have no
  such property.
\<close>

fun anthropicApiKey :: "json \<Rightarrow> thrown + jsval" where
  "anthropicApiKey JNull =
     Inl (ErrorObject ''Cannot read properties of null (reading 'anthropicApiKey')'')"
| "anthropicApiKey (JObj kvs) =
     Inr (case map_of kvs ''anthropicApiKey'' of None \<Rightarrow> Undefined | Some v \<Rightarrow> Json v)"
| "anthropicApiKey (JBool b) = Inr Undefined"
| "anthropicApiKey (JNum n) = Inr Undefined"
| "anthropicApiKey (JStr s) = Inr Undefined"
| "anthropicApiKey (JArr xs) = Inr Undefined"

section \<open>The platform\<close>

text \<open>
  What the module takes from its runtime: \<^verbatim>\<open>JSON.parse\<close> (\<open>None\<close> is the SyntaxError it
  throws), the values on which \<^verbatim>\<open>JSON.stringify\<close> throws a RangeError on this engine (a
  nesting too deep for its stack, a text too long for a string), the environment of the
  process (\<^verbatim>\<open>process.env\<close>), and
  \<^verbatim>\<open>workspaceDirectory = join(homedir(), WORKSPACE_DIR_NAME)\<close>, whose constant is declared
  in \<^verbatim>\<open>./const\<close>.
\<close>

record platform =
  JSON_parse :: "string \<Rightarrow> json option"
  stringify_throws :: "json \<Rightarrow> bool"
  process_env :: "string \<rightharpoonup> string"
  workspaceDirectory :: string

text \<open>
  \<^verbatim>\<open>JSON.stringify\<close> of a value that \<^verbatim>\<open>JSON.parse\<close> returned, given as the value that
  \<^verbatim>\<open>JSON.parse\<close> reads back from the text written: an infinity is written \<^verbatim>\<open>null\<close>,
  everything else reads back as it was. \<open>None\<close> is the RangeError.
\<close>

primrec wire :: "json \<Rightarrow> json" where
  "wire JNull = JNull"
| "wire (JBool b) = JBool b"
| "wire (JNum n) =
     (case n of Finite r \<Rightarrow> JNum (Finite r) | PlusInfinity \<Rightarrow> JNull | MinusInfinity \<Rightarrow> JNull)"
| "wire (JStr s) = JStr s"
| "wire (JArr xs) = JArr (map wire xs)"
| "wire (JObj kvs) = JObj (map (map_prod id wire) kvs)"

definition JSON_stringify :: "platform \<Rightarrow> json \<Rightarrow> json option" where
  "JSON_stringify P v = (if stringify_throws P v then None else Some (wire v))"

text \<open>The values without an infinity, and the depth of the nesting of a value.\<close>

primrec finite_numbers :: "json \<Rightarrow> bool" where
  "finite_numbers JNull = True"
| "finite_numbers (JBool b) = True"
| "finite_numbers (JNum n) =
     (case n of Finite r \<Rightarrow> True | PlusInfinity \<Rightarrow> False | MinusInfinity \<Rightarrow> False)"
| "finite_numbers (JStr s) = True"
| "finite_numbers (JArr xs) = list_all id (map finite_numbers xs)"
| "finite_numbers (JObj kvs) = list_all snd (map (map_prod id finite_numbers) kvs)"

primrec depth :: "json \<Rightarrow> nat" where
  "depth JNull = 0"
| "depth (JBool b) = 0"
| "depth (JNum n) = 0"
| "depth (JStr s) = 0"
| "depth (JArr xs) = Suc (foldr max (map depth xs) 0)"
| "depth (JObj kvs) = Suc (foldr max (map snd (map (map_prod id depth) kvs)) 0)"

definition env_var :: "platform \<Rightarrow> string \<Rightarrow> jsval" where
  "env_var P k = (case process_env P k of None \<Rightarrow> Undefined | Some v \<Rightarrow> Json (JStr v))"

section \<open>The state of the module\<close>

type_synonym ws = nat

text \<open>The envelopes sent to a client (\<^verbatim>\<open>WSOutputMessage\<close>), before \<^verbatim>\<open>JSON.stringify\<close>.\<close>

datatype envelope =
    Connected
  | Info string
  | SdkMessage json
  | Error string

text \<open>
  One call of \<^verbatim>\<open>query({prompt: generateMessages(), options})\<close>: the options it was given,
  whether the \<^verbatim>\<open>for await\<close> loop of \<^verbatim>\<open>processMessages\<close> over it is still running, and
  the state of its prompt generator: the number of \<^verbatim>\<open>next()\<close> requests the generator has
  not answered yet (positive exactly while the generator sits in its 10 ms \<^verbatim>\<open>await\<close>).
\<close>

record session =
  session_options :: options
  iterating :: bool
  pending :: nat

text \<open>
  An HTTP response: \<^verbatim>\<open>res.writeHead\<close> and \<^verbatim>\<open>res.end\<close>. A JSON body is given as the
  value read back from the text written, that is the result of \<open>JSON_stringify\<close>.
\<close>

datatype body = JsonText json | PlainText string

record response =
  status :: nat
  content_type :: "string option"
  payload :: body

text \<open>
  The four module variables, the calls of \<^verbatim>\<open>query\<close> made so far (\<^verbatim>\<open>activeStream\<close> refers
  to one of them by its index), the sockets whose \<^verbatim>\<open>message\<close> and \<^verbatim>\<open>close\<close> listeners are
  registered, and the traces of the effects: envelopes sent per socket, sockets closed by
  the server, messages pushed onto the queue, messages yielded to each stream, interrupts
  issued, HTTP responses written. \<open>exited\<close> records that an exception has left a handler
  uncaught, on which Node.js ends the process.
\<close>

record server =
  activeConnection :: "ws option"
  messageQueue :: "json list"
  activeStream :: "nat option"
  queryConfig :: json
  sessions :: "session list"
  listeners :: "ws list"
  sent :: "(ws \<times> envelope) list"
  closed :: "ws list"
  pushed :: "json list"
  yielded :: "(nat \<times> json) list"
  interrupts :: "nat list"
  responses :: "response list"
  exited :: bool

definition init :: server where
  "init = \<lparr> activeConnection = None, messageQueue = [], activeStream = None,
            queryConfig = JObj [], sessions = [], listeners = [], sent = [], closed = [],
            pushed = [], yielded = [], interrupts = [], responses = [],
            exited = False \<rparr>"

text \<open>\<^verbatim>\<open>ws.send(JSON.stringify(output))\<close>.\<close>

definition send :: "ws \<Rightarrow> envelope \<Rightarrow> server \<Rightarrow> server" where
  "send w output s = s\<lparr>sent := sent s @ [(w, output)]\<rparr>"

section \<open>generateMessages\<close>

text \<open>
  \<^verbatim>\<open>
  async function* generateMessages() {
    while (true) {
      while (messageQueue.length > 0) {
        const message = messageQueue.shift()
        yield message!
      }
      await new Promise(resolve => setTimeout(resolve, 10))
    }
  }
  \<close>
  The generator runs while a \<^verbatim>\<open>next()\<close> request is open. With a message in the queue it
  shifts it and yields it, which answers one request; with further requests open it goes
  on, otherwise it stays at the \<^verbatim>\<open>yield\<close>. With an empty queue it reaches the \<^verbatim>\<open>await\<close>
  and sleeps, the open requests unanswered. The result is the messages yielded, the
  requests left open and the queue left.
\<close>

fun generateMessages :: "nat \<Rightarrow> json list \<Rightarrow> json list \<times> nat \<times> json list" where
  "generateMessages 0 q = ([], 0, q)"
| "generateMessages (Suc n) [] = ([], Suc n, [])"
| "generateMessages (Suc n) (m # q) =
     (case generateMessages n q of (ys, n', q') \<Rightarrow> (m # ys, n', q'))"

definition resume :: "nat \<Rightarrow> nat \<Rightarrow> server \<Rightarrow> server" where
  "resume sid n s =
     (case generateMessages n (messageQueue s) of
        (ys, n', q') \<Rightarrow>
          s\<lparr>messageQueue := q',
            yielded := yielded s @ map (Pair sid) ys,
            sessions := (sessions s)[sid := (sessions s ! sid)\<lparr>pending := n'\<rparr>]\<rparr>)"

text \<open>
  The stream asks its prompt for the next message: a generator at its start or at a
  \<^verbatim>\<open>yield\<close> is resumed; one that sleeps gets the request queued.
\<close>

definition prompt_next :: "nat \<Rightarrow> server \<Rightarrow> server" where
  "prompt_next sid s =
     (if sid < length (sessions s) then
        (if pending (sessions s ! sid) = 0 then resume sid 1 s
         else s\<lparr>sessions := (sessions s)[sid := (sessions s ! sid)
                  \<lparr>pending := Suc (pending (sessions s ! sid))\<rparr>]\<rparr>)
      else s)"

text \<open>The 10 ms timer of a sleeping generator fires: back to the head of the loop.\<close>

definition timer_fired :: "nat \<Rightarrow> server \<Rightarrow> server" where
  "timer_fired sid s =
     (if sid < length (sessions s) \<and> 0 < pending (sessions s ! sid)
      then resume sid (pending (sessions s ! sid)) s else s)"

section \<open>processMessages\<close>

text \<open>
  The \<^verbatim>\<open>options\<close> literal: five defaults, then the spread of the stored configuration over
  them, then, when \<^verbatim>\<open>queryConfig.anthropicApiKey\<close> is truthy, an \<^verbatim>\<open>env\<close> of
  \<^verbatim>\<open>PATH: process.env.PATH\<close> and \<^verbatim>\<open>ANTHROPIC_API_KEY\<close>. Later properties win.
\<close>

definition default_options :: "platform \<Rightarrow> options" where
  "default_options P =
     [''permissionMode'' \<mapsto> Json (JStr ''bypassPermissions''),
      ''allowDangerouslySkipPermissions'' \<mapsto> Json (JBool True),
      ''settingSources'' \<mapsto> Json (JArr [JStr ''project'']),
      ''cwd'' \<mapsto> Json (JStr (workspaceDirectory P)),
      ''stderr'' \<mapsto> StderrCallback]"

definition env_override :: "platform \<Rightarrow> jsval \<Rightarrow> jsval" where
  "env_override P key =
     ObjectLit [(''PATH'', env_var P ''PATH''), (''ANTHROPIC_API_KEY'', key)]"

definition build_options :: "platform \<Rightarrow> json \<Rightarrow> thrown + options" where
  "build_options P cfg =
     (case anthropicApiKey cfg of
        Inl e \<Rightarrow> Inl e
      | Inr key \<Rightarrow>
          Inr (default_options P ++ own_props cfg ++
               (if truthy key then [''env'' \<mapsto> env_override P key] else Map.empty)))"

text \<open>
  The \<^verbatim>\<open>catch\<close> block of \<^verbatim>\<open>processMessages\<close> (the \<^verbatim>\<open>console.error\<close> line is not
  modelled): an \<^verbatim>\<open>error\<close> envelope to the active connection, if there is one.
\<close>

definition catch_block :: "thrown \<Rightarrow> server \<Rightarrow> server" where
  "catch_block e s =
     (case activeConnection s of
        None \<Rightarrow> s
      | Some c \<Rightarrow> send c (Error (error_message e)) s)"

text \<open>
  The call of \<^verbatim>\<open>processMessages\<close> up to its first suspension: the options are built (a
  throw there goes to the \<^verbatim>\<open>catch\<close> block, before \<^verbatim>\<open>activeStream\<close> is assigned),
  \<^verbatim>\<open>query\<close> returns the stream, \<^verbatim>\<open>activeStream\<close> is assigned, and the \<^verbatim>\<open>for await\<close>
  loop waits for the first item.
\<close>

definition processMessages :: "platform \<Rightarrow> server \<Rightarrow> server" where
  "processMessages P s =
     (case build_options P (queryConfig s) of
        Inl e \<Rightarrow> catch_block e s
      | Inr opts \<Rightarrow>
          s\<lparr>activeStream := Some (length (sessions s)),
            sessions := sessions s @
              [\<lparr>session_options = opts, iterating = True, pending = 0\<rparr>]\<rparr>)"

text \<open>The body of the \<^verbatim>\<open>for await\<close> loop, for one item of a stream still iterated.\<close>

definition stream_item :: "nat \<Rightarrow> json \<Rightarrow> server \<Rightarrow> server" where
  "stream_item sid m s =
     (if sid < length (sessions s) \<and> iterating (sessions s ! sid) then
        (case activeConnection s of
           None \<Rightarrow> s
         | Some c \<Rightarrow> send c (SdkMessage m) s)
      else s)"

text \<open>The stream ends: the loop is left and \<^verbatim>\<open>processMessages\<close> returns.\<close>

definition stream_end :: "nat \<Rightarrow> server \<Rightarrow> server" where
  "stream_end sid s =
     (if sid < length (sessions s) \<and> iterating (sessions s ! sid) then
        s\<lparr>sessions := (sessions s)[sid := (sessions s ! sid)\<lparr>iterating := False\<rparr>]\<rparr>
      else s)"

text \<open>The iteration throws: the loop is left through the \<^verbatim>\<open>catch\<close> block.\<close>

definition stream_throw :: "nat \<Rightarrow> thrown \<Rightarrow> server \<Rightarrow> server" where
  "stream_throw sid e s =
     (if sid < length (sessions s) \<and> iterating (sessions s ! sid) then
        catch_block e
          (s\<lparr>sessions := (sessions s)[sid := (sessions s ! sid)\<lparr>iterating := False\<rparr>]\<rparr>)
      else s)"

text \<open>The \<^verbatim>\<open>stderr\<close> callback of the options, called by a stream that was given it.\<close>

definition stderr :: "nat \<Rightarrow> string \<Rightarrow> server \<Rightarrow> server" where
  "stderr sid d s =
     (if sid < length (sessions s) then
        (case activeConnection s of
           None \<Rightarrow> s
         | Some c \<Rightarrow> send c (Info d) s)
      else s)"

section \<open>The HTTP server\<close>

text \<open>
  A request: its method, the path of its URL, and the chunks of its body as the handler
  reads them: \<^verbatim>\<open>body += chunk\<close> turns each chunk into text on its own and appends it, so
  the text parsed at \<^verbatim>\<open>end\<close> is the concatenation of the chunks' texts.
\<close>

record request =
  req_method :: string
  pathname :: string
  chunks :: "string list"

definition json_response :: "nat \<Rightarrow> json \<Rightarrow> response" where
  "json_response code v =
     \<lparr>status = code, content_type = Some ''application/json'', payload = JsonText v\<rparr>"

text \<open>
  \<^verbatim>\<open>
  try {
    queryConfig = JSON.parse(body) as QueryConfig
    res.writeHead(200, { 'Content-Type': 'application/json' })
    res.end(JSON.stringify({ success: true, config: queryConfig }))
  } catch {
    res.writeHead(400, { 'Content-Type': 'application/json' })
    res.end(JSON.stringify({ error: 'Invalid JSON' }))
  }
  \<close>
  The \<^verbatim>\<open>try\<close> covers the answer as well as the parse. When \<^verbatim>\<open>JSON.parse\<close> throws, nothing
  is assigned and the \<^verbatim>\<open>catch\<close> answers 400 (\<^verbatim>\<open>JSON.stringify\<close> of its constant object
  does not throw). When \<^verbatim>\<open>JSON.parse\<close> returns, the value is assigned and
  \<^verbatim>\<open>writeHead(200)\<close> is called; if \<^verbatim>\<open>JSON.stringify\<close> then throws, the \<^verbatim>\<open>catch\<close> calls
  \<^verbatim>\<open>writeHead(400)\<close> after the headers are set, which throws out of the \<^verbatim>\<open>end\<close>
  listener: no response is written and the process exits, the configuration replaced.
  The \<^verbatim>\<open>GET\<close> branch has no \<^verbatim>\<open>try\<close>: a throw of \<^verbatim>\<open>JSON.stringify\<close> there rejects the
  promise of the handler, unhandled, with the same end. The result is the response
  written, if any, and the new state.
\<close>

definition requestListener ::
  "platform \<Rightarrow> request \<Rightarrow> server \<Rightarrow> response option \<times> server" where
  "requestListener P req s =
     (if pathname req = ''/config'' \<and> req_method req = ''POST'' then
        (case JSON_parse P (concat (chunks req)) of
           Some v \<Rightarrow>
             (case JSON_stringify P (JObj [(''success'', JBool True), (''config'', v)]) of
                Some txt \<Rightarrow> (Some (json_response 200 txt), s\<lparr>queryConfig := v\<rparr>)
              | None \<Rightarrow> (None, s\<lparr>queryConfig := v, exited := True\<rparr>))
         | None \<Rightarrow>
             (Some (json_response 400 (JObj [(''error'', JStr ''Invalid JSON'')])), s))
      else if pathname req = ''/config'' \<and> req_method req = ''GET'' then
        (case JSON_stringify P (JObj [(''config'', queryConfig s)]) of
           Some txt \<Rightarrow> (Some (json_response 200 txt), s)
         | None \<Rightarrow> (None, s\<lparr>exited := True\<rparr>))
      else (Some \<lparr>status = 404, content_type = None, payload = PlainText ''Not Found''\<rparr>, s))"

section \<open>The WebSocket server\<close>

text \<open>
  Modelled from the spec: \<^verbatim>\<open>handleMessage\<close> of \<^verbatim>\<open>./message-handler\<close>, whose file is not
  among the sources. The spec (4.5): a user message is enqueued onto the queue and not
  acknowledged; an interrupt command calls interrupt on the active stream if there is
  one and is a no-op otherwise; a frame that fails to parse is reported to its sender as
  an \<^verbatim>\<open>error\<close> envelope and otherwise ignored. A frame is given as classified, a
  malformed one with the text reported.
\<close>

datatype frame = UserMessage json | InterruptCommand | Malformed string

definition handleMessage :: "ws \<Rightarrow> frame \<Rightarrow> server \<Rightarrow> server" where
  "handleMessage w f s =
     (case f of
        UserMessage m \<Rightarrow> s\<lparr>messageQueue := messageQueue s @ [m], pushed := pushed s @ [m]\<rparr>
      | InterruptCommand \<Rightarrow>
          (case activeStream s of
             None \<Rightarrow> s
           | Some sid \<Rightarrow> s\<lparr>interrupts := interrupts s @ [sid]\<rparr>)
      | Malformed txt \<Rightarrow> send w (Error txt) s)"

text \<open>
  \<^verbatim>\<open>wss.on('connection', ws => ...)\<close>: with a connection active the new socket gets an
  \<^verbatim>\<open>error\<close> envelope and is closed, and the handler returns before it registers a
  listener. Otherwise the socket becomes the active connection, \<^verbatim>\<open>processMessages\<close> is
  called if \<^verbatim>\<open>activeStream\<close> is null, \<^verbatim>\<open>connected\<close> is sent and the listeners are
  registered.
\<close>

definition on_connection :: "platform \<Rightarrow> ws \<Rightarrow> server \<Rightarrow> server" where
  "on_connection P w s =
     (case activeConnection s of
        Some c \<Rightarrow>
          (send w (Error ''Server already has an active connection'') s)
            \<lparr>closed := closed s @ [w]\<rparr>
      | None \<Rightarrow>
          (let s1 = s\<lparr>activeConnection := Some w\<rparr>;
               s2 = (if activeStream s1 = None then processMessages P s1 else s1);
               s3 = send w Connected s2
           in s3\<lparr>listeners := listeners s3 @ [w]\<rparr>))"

text \<open>\<^verbatim>\<open>ws.on('message', ...)\<close> and \<^verbatim>\<open>ws.on('close', ...)\<close> of a socket with listeners.\<close>

definition on_message :: "ws \<Rightarrow> frame \<Rightarrow> server \<Rightarrow> server" where
  "on_message w f s = (if w \<in> set (listeners s) then handleMessage w f s else s)"

definition on_close :: "ws \<Rightarrow> server \<Rightarrow> server" where
  "on_close w s =
     (if w \<in> set (listeners s) \<and> activeConnection s = Some w
      then s\<lparr>activeConnection := None\<rparr> else s)"

section \<open>The event loop\<close>

datatype event =
    Connection ws
  | WsMessage ws frame
  | WsClose ws
  | Http request
  | StreamItem nat json
  | StreamEnd nat
  | StreamThrow nat thrown
  | Stderr nat string
  | PromptNext nat
  | TimerFired nat

fun step :: "platform \<Rightarrow> server \<Rightarrow> event \<Rightarrow> server" where
  "step P s (Connection w) = on_connection P w s"
| "step P s (WsMessage w f) = on_message w f s"
| "step P s (WsClose w) = on_close w s"
| "step P s (Http req) =
     (case requestListener P req s of
        (Some r, s') \<Rightarrow> s'\<lparr>responses := responses s' @ [r]\<rparr>
      | (None, s') \<Rightarrow> s')"
| "step P s (StreamItem sid m) = stream_item sid m s"
| "step P s (StreamEnd sid) = stream_end sid s"
| "step P s (StreamThrow sid e) = stream_throw sid e s"
| "step P s (Stderr sid d) = stderr sid d s"
| "step P s (PromptNext sid) = prompt_next sid s"
| "step P s (TimerFired sid) = timer_fired sid s"

text \<open>
  A run handles a list of events in turn. No event reaches a process that has exited: the
  runs of the program are the runs below up to the first state with \<open>exited\<close>, and what
  holds of every run below holds of them.
\<close>

definition run :: "platform \<Rightarrow> event list \<Rightarrow> server \<Rightarrow> server" where
  "run P evs s = foldl (step P) s evs"

text \<open>
  The stream reads its prompt until the queue is empty: the timer of a sleeping generator
  fires, then \<open>n\<close> requests follow.
\<close>

definition drain :: "nat \<Rightarrow> nat \<Rightarrow> event list" where
  "drain sid n = TimerFired sid # replicate n (PromptNext sid)"

definition post_config :: "string list \<Rightarrow> request" where
  "post_config cs = \<lparr>req_method = ''POST'', pathname = ''/config'', chunks = cs\<rparr>"

definition get_config :: request where
  "get_config = \<lparr>req_method = ''GET'', pathname = ''/config'', chunks = []\<rparr>"

text \<open>Events by kind: a new connection; any event but an HTTP request.\<close>

fun is_connection :: "event \<Rightarrow> bool" where
  "is_connection (Connection w) = True"
| "is_connection e = False"

fun keeps_config :: "event \<Rightarrow> bool" where
  "keeps_config (Http req) = False"
| "keeps_config e = True"

section \<open>A platform for concrete runs\<close>

text \<open>
  The bodies of the concrete runs below are among eight JSON texts and the text
  \<^verbatim>\<open>{oops\<close>, which is none. \<open>sample_parse\<close> gives \<^verbatim>\<open>JSON.parse\<close> on these nine: the value
  of each JSON text, and the SyntaxError on \<^verbatim>\<open>{oops\<close>; no run applies it to another text.
  The \<^verbatim>\<open>JSON.stringify\<close> of the platform throws on a nesting deeper than a thousand
  levels.
\<close>

definition sample_parse :: "string \<Rightarrow> json option" where
  "sample_parse b =
     (if b = ''null'' then Some JNull
      else if b = ''5'' then Some (JNum (Finite 5))
      else if b = ''1e400'' then Some (JNum PlusInfinity)
      else if b = ''\"abc\"'' then Some (JStr ''abc'')
      else if b = ''{\"cwd\": \"/tmp/x\"}'' then Some (JObj [(''cwd'', JStr ''/tmp/x'')])
      else if b = ''{\"a\":1e400}'' then Some (JObj [(''a'', JNum PlusInfinity)])
      else if b = ''{\"env\": {\"FOO\": \"bar\"}}''
        then Some (JObj [(''env'', JObj [(''FOO'', JStr ''bar'')])])
      else if b = ''{\"anthropicApiKey\": \"sk-1\"}''
        then Some (JObj [(''anthropicApiKey'', JStr ''sk-1'')])
      else None)"

definition node :: platform where
  "node = \<lparr>JSON_parse = sample_parse,
            stringify_throws = (\<lambda>v. 1000 < depth v),
            process_env = [''PATH'' \<mapsto> ''/usr/bin'', ''HOME'' \<mapsto> ''/home/user'',
                           ''AWS_SECRET'' \<mapsto> ''s3cr3t''],
            workspaceDirectory = ''/home/user/agent-workspace''\<rparr>"

section \<open>Runs and invariants\<close>

declare index_key.simps [simp del]

lemmas handler_defs = on_connection_def on_message_def on_close_def handleMessage_def
  requestListener_def stream_item_def stream_end_def stream_throw_def stderr_def
  prompt_next_def timer_fired_def resume_def processMessages_def catch_block_def send_def

lemma run_Nil: "run P [] s = s"
  by (simp add: run_def)

lemma run_Cons: "run P (e # evs) s = run P evs (step P s e)"
  by (simp add: run_def)

lemma run_append: "run P (evs @ evs') s = run P evs' (run P evs s)"
  by (simp add: run_def)

text \<open>A property kept by every step holds along every run.\<close>

lemma run_invariant:
  assumes "Q s" and "\<And>s e. Q s \<Longrightarrow> Q (step P s e)"
  shows "Q (run P evs s)"
  using assms(1)
proof (induction evs arbitrary: s)
  case Nil
  then show ?case by (simp add: run_Nil)
next
  case (Cons e evs)
  then show ?case by (simp add: run_Cons assms(2))
qed

section \<open>The message source\<close>

lemma generateMessages_take_drop:
  "generateMessages n q = (take n q, n - length q, drop n q)"
  by (induction n q rule: generateMessages.induct) auto

text \<open>Every message pushed is either yielded already or still queued, in push order.\<close>

lemma accounted_step:
  assumes "map snd (yielded s) @ messageQueue s = pushed s"
  shows "map snd (yielded (step P s e)) @ messageQueue (step P s e) = pushed (step P s e)"
proof (cases e)
  case (Http req)
  then show ?thesis using assms
    by (auto simp: requestListener_def split: option.splits)
qed (use assms in \<open>auto simp: handler_defs generateMessages_take_drop Let_def comp_def
      split: option.splits frame.splits sum.splits\<close>)

lemma accounted_run:
  "map snd (yielded (run P evs init)) @ messageQueue (run P evs init) = pushed (run P evs init)"
  by (rule run_invariant [where Q = "\<lambda>s. map snd (yielded s) @ messageQueue s = pushed s"])
     (simp_all add: init_def accounted_step)

text \<open>
  After its timer has fired, a generator with an open request faces an empty queue; each
  further request then takes the head of the queue.
\<close>

lemma timer_fired_drains:
  assumes "sid < length (sessions s)"
  shows "sid < length (sessions (timer_fired sid s))"
    and "map snd (yielded (timer_fired sid s)) @ messageQueue (timer_fired sid s)
           = map snd (yielded s) @ messageQueue s"
    and "pushed (timer_fired sid s) = pushed s"
    and "length (messageQueue (timer_fired sid s)) \<le> length (messageQueue s)"
    and "pending (sessions (timer_fired sid s) ! sid) = 0 \<or> messageQueue (timer_fired sid s) = []"
  using assms
  by (auto simp: timer_fired_def resume_def generateMessages_take_drop comp_def)

lemma prompt_next_drains:
  assumes "sid < length (sessions s)"
    and "pending (sessions s ! sid) = 0 \<or> messageQueue s = []"
  shows "sid < length (sessions (prompt_next sid s))"
    and "map snd (yielded (prompt_next sid s)) = map snd (yielded s) @ take 1 (messageQueue s)"
    and "messageQueue (prompt_next sid s) = drop 1 (messageQueue s)"
    and "pushed (prompt_next sid s) = pushed s"
    and "pending (sessions (prompt_next sid s) ! sid) = 0 \<or> messageQueue (prompt_next sid s) = []"
  using assms
  by (auto simp: prompt_next_def resume_def generateMessages_take_drop comp_def)

lemma prompt_next_replicate:
  assumes "sid < length (sessions s)"
    and "pending (sessions s ! sid) = 0 \<or> messageQueue s = []"
  shows "map snd (yielded (run P (replicate n (PromptNext sid)) s))
           = map snd (yielded s) @ take n (messageQueue s)
         \<and> messageQueue (run P (replicate n (PromptNext sid)) s) = drop n (messageQueue s)
         \<and> pushed (run P (replicate n (PromptNext sid)) s) = pushed s"
  using assms
proof (induction n arbitrary: s)
  case 0
  then show ?case by (simp add: run_Nil)
next
  case (Suc n)
  let ?t = "prompt_next sid s"
  have t: "sid < length (sessions ?t)" "pending (sessions ?t ! sid) = 0 \<or> messageQueue ?t = []"
    using prompt_next_drains [OF Suc.prems] by blast+
  have "take 1 (messageQueue s) @ take n (drop 1 (messageQueue s)) = take (Suc n) (messageQueue s)"
    by (cases "messageQueue s") simp_all
  then show ?case
    using Suc.IH [OF t] prompt_next_drains(2,3,4) [OF Suc.prems]
    by (simp add: run_Cons drop_Suc tl_drop)
qed

lemma drain_all:
  assumes "sid < length (sessions s)"
    and "map snd (yielded s) @ messageQueue s = pushed s"
  shows "map snd (yielded (run P (drain sid (length (messageQueue s))) s)) = pushed s
         \<and> messageQueue (run P (drain sid (length (messageQueue s))) s) = []
         \<and> pushed (run P (drain sid (length (messageQueue s))) s) = pushed s"
proof -
  note t = timer_fired_drains [OF assms(1)]
  show ?thesis
    using prompt_next_replicate [OF t(1) t(5), of P "length (messageQueue s)"] t(2,3,4) assms(2)
    by (simp add: drain_def run_Cons)
qed

text \<open>
  Claim C1. Whatever the events so far, the messages the generator has yielded, followed
  by the messages still queued, are exactly the messages pushed onto the queue, in the
  order of the pushes: nothing is yielded twice, skipped or reordered. And nothing is
  lost: once a stream exists, if it reads its prompt until the queue is empty
  (\<open>drain\<close>), the messages yielded are all the messages pushed.
\<close>

theorem message_source_fifo:
  "map snd (yielded (run P evs init)) @ messageQueue (run P evs init) = pushed (run P evs init)
   \<and> (\<forall>sid < length (sessions (run P evs init)).
        map snd (yielded (run P (drain sid (length (messageQueue (run P evs init))))
                           (run P evs init)))
          = pushed (run P evs init)
        \<and> messageQueue (run P (drain sid (length (messageQueue (run P evs init))))
                           (run P evs init)) = [])"
  using accounted_run [of P evs] drain_all [of _ "run P evs init" P] by blast

theorem message_source_fifo_witness:
  "0 < length (sessions (run node [Connection 1, WsMessage 1 (UserMessage (JStr ''one'')),
             PromptNext 0, PromptNext 0, WsMessage 1 (UserMessage (JStr ''two'')),
             WsMessage 1 (UserMessage (JStr ''three''))] init))
   \<and> yielded (run node [Connection 1, WsMessage 1 (UserMessage (JStr ''one'')),
             PromptNext 0, PromptNext 0, WsMessage 1 (UserMessage (JStr ''two'')),
             WsMessage 1 (UserMessage (JStr ''three''))] init) = [(0, JStr ''one'')]
   \<and> map snd (yielded (run node (drain 0 2)
        (run node [Connection 1, WsMessage 1 (UserMessage (JStr ''one'')),
             PromptNext 0, PromptNext 0, WsMessage 1 (UserMessage (JStr ''two'')),
             WsMessage 1 (UserMessage (JStr ''three''))] init)))
       = [JStr ''one'', JStr ''two'', JStr ''three'']"
proof -
  let ?s = "run node [Connection 1, WsMessage 1 (UserMessage (JStr ''one'')),
             PromptNext 0, PromptNext 0, WsMessage 1 (UserMessage (JStr ''two'')),
             WsMessage 1 (UserMessage (JStr ''three''))] init"
  have s: "length (sessions ?s) = 1" "messageQueue ?s = [JStr ''two'', JStr ''three'']"
    "yielded ?s = [(0, JStr ''one'')]" "pushed ?s = [JStr ''one'', JStr ''two'', JStr ''three'']"
    by (simp_all add: run_def handler_defs init_def node_def build_options_def)
  have "\<forall>sid < length (sessions ?s).
          map snd (yielded (run node (drain sid (length (messageQueue ?s))) ?s)) = pushed ?s
          \<and> messageQueue (run node (drain sid (length (messageQueue ?s))) ?s) = []"
    using message_source_fifo [of node "[Connection 1, WsMessage 1 (UserMessage (JStr ''one'')),
             PromptNext 0, PromptNext 0, WsMessage 1 (UserMessage (JStr ''two'')),
             WsMessage 1 (UserMessage (JStr ''three''))]"]
    by blast
  then have "map snd (yielded (run node (drain 0 (length (messageQueue ?s))) ?s)) = pushed ?s"
    using s(1) by simp
  then show ?thesis
    using s by (simp add: numeral_2_eq_2)
qed

section \<open>Rejecting a second connection\<close>

text \<open>
  Claim C2. With a connection \<open>c\<close> active, a new connection \<open>w\<close> changes the state in
  two places only: one envelope is sent, to \<open>w\<close>, the \<^verbatim>\<open>error\<close> envelope; and \<open>w\<close> is
  closed. The active connection is still \<open>c\<close>; the stream, its sessions and the queue are
  as before, and \<open>w\<close> gets no listener.
\<close>

theorem second_connection_rejected:
  assumes "activeConnection s = Some c"
  shows "step P s (Connection w) =
           s\<lparr>sent := sent s @ [(w, Error ''Server already has an active connection'')],
             closed := closed s @ [w]\<rparr>
         \<and> sent (step P s (Connection w)) =
             sent s @ [(w, Error ''Server already has an active connection'')]
         \<and> closed (step P s (Connection w)) = closed s @ [w]
         \<and> activeConnection (step P s (Connection w)) = Some c
         \<and> activeStream (step P s (Connection w)) = activeStream s
         \<and> sessions (step P s (Connection w)) = sessions s
         \<and> messageQueue (step P s (Connection w)) = messageQueue s
         \<and> listeners (step P s (Connection w)) = listeners s"
  using assms by (simp add: on_connection_def send_def)

theorem second_connection_rejected_witness:
  "activeConnection (run node [Connection 1] init) = Some 1
   \<and> sent (step node (run node [Connection 1] init) (Connection 2)) =
       [(1, Connected), (2, Error ''Server already has an active connection'')]
   \<and> closed (step node (run node [Connection 1] init) (Connection 2)) = [2]
   \<and> activeConnection (step node (run node [Connection 1] init) (Connection 2)) = Some 1"
proof -
  have a: "activeConnection (run node [Connection 1] init) = Some 1"
    "sent (run node [Connection 1] init) = [(1, Connected)]"
    "closed (run node [Connection 1] init) = []"
    by (simp_all add: run_def handler_defs init_def node_def build_options_def)
  show ?thesis
    using a second_connection_rejected [OF a(1), of node 2] by simp
qed

section \<open>Creating the stream once\<close>

text \<open>
  \<^verbatim>\<open>activeStream\<close> is null exactly while \<^verbatim>\<open>query\<close> has not been called; once it is
  assigned no handler clears it, and \<^verbatim>\<open>processMessages\<close> is called only while it is null.
\<close>

lemma stream_once_step:
  assumes "case activeStream s of None \<Rightarrow> sessions s = [] | Some sid \<Rightarrow> length (sessions s) = 1"
  shows "case activeStream (step P s e) of
           None \<Rightarrow> sessions (step P s e) = []
         | Some sid \<Rightarrow> length (sessions (step P s e)) = 1"
  using assms
  by (cases e)
     (auto simp: handler_defs generateMessages_take_drop Let_def
           split: option.splits frame.splits sum.splits)

lemma stream_once_run:
  "case activeStream (run P evs init) of
     None \<Rightarrow> sessions (run P evs init) = []
   | Some sid \<Rightarrow> length (sessions (run P evs init)) = 1"
  by (rule run_invariant
        [where Q = "\<lambda>s. case activeStream s of None \<Rightarrow> sessions s = []
                                           | Some sid \<Rightarrow> length (sessions s) = 1"])
     (simp_all add: init_def stream_once_step)

lemma activeStream_step: "activeStream s = Some sid \<Longrightarrow> activeStream (step P s e) = Some sid"
  by (cases e)
     (auto simp: handler_defs generateMessages_take_drop Let_def
           split: option.splits frame.splits sum.splits)

lemma sessions_length_step:
  "activeStream s = Some sid \<Longrightarrow> length (sessions (step P s e)) = length (sessions s)"
  by (cases e)
     (auto simp: handler_defs generateMessages_take_drop Let_def
           split: option.splits frame.splits sum.splits)

lemma sessions_length_run:
  "activeStream s = Some sid \<Longrightarrow>
     activeStream (run P evs s) = Some sid \<and> length (sessions (run P evs s)) = length (sessions s)"
proof (induction evs arbitrary: s)
  case Nil
  then show ?case by (simp add: run_Nil)
next
  case (Cons e evs)
  then show ?case
    using activeStream_step [of s sid P e] sessions_length_step [of s sid P e]
    by (simp add: run_Cons)
qed

lemma build_options_not_null: "cfg \<noteq> JNull \<Longrightarrow> \<exists>opts. build_options P cfg = Inr opts"
  by (cases cfg) (simp_all add: build_options_def)

lemma connection_creates:
  assumes "activeConnection s = None" "activeStream s = None" "queryConfig s \<noteq> JNull"
  shows "activeStream (step P s (Connection w)) = Some (length (sessions s))
         \<and> length (sessions (step P s (Connection w))) = Suc (length (sessions s))"
  using assms build_options_not_null [of "queryConfig s" P]
  by (auto simp: on_connection_def processMessages_def send_def Let_def)

lemma connection_reuses:
  assumes "activeStream s = Some sid"
  shows "activeStream (step P s (Connection w)) = Some sid
         \<and> sessions (step P s (Connection w)) = sessions s"
  using assms
  by (auto simp: on_connection_def send_def Let_def split: option.splits)

text \<open>
  Without a configuration request the stored configuration stays the initial \<^verbatim>\<open>{}\<close>, the
  options are built without a throw, and the stream exists from the first connection on.
\<close>

lemma default_config_step:
  assumes "queryConfig s = JObj []"
    and "activeStream s = None \<longrightarrow> sessions s = [] \<and> activeConnection s = None"
    and "activeStream s \<noteq> None \<longrightarrow> length (sessions s) = 1"
    and "keeps_config e"
  shows "queryConfig (step P s e) = JObj []"
    and "activeStream (step P s e) = None \<longrightarrow>
           sessions (step P s e) = [] \<and> activeConnection (step P s e) = None"
    and "activeStream (step P s e) \<noteq> None \<longrightarrow> length (sessions (step P s e)) = 1"
    and "activeStream (step P s e) = None \<longleftrightarrow> activeStream s = None \<and> \<not> is_connection e"
  using assms
  by (cases e;
      auto simp: handler_defs build_options_def generateMessages_take_drop Let_def
           split: option.splits frame.splits)+

lemma default_config_run:
  assumes "queryConfig s = JObj []"
    and "activeStream s = None \<longrightarrow> sessions s = [] \<and> activeConnection s = None"
    and "activeStream s \<noteq> None \<longrightarrow> length (sessions s) = 1"
    and "list_all keeps_config evs"
  shows "(activeStream (run P evs s) = None \<longrightarrow> sessions (run P evs s) = [])
         \<and> (activeStream (run P evs s) \<noteq> None \<longrightarrow> length (sessions (run P evs s)) = 1)
         \<and> (activeStream (run P evs s) = None \<longleftrightarrow>
              activeStream s = None \<and> \<not> list_ex is_connection evs)"
  using assms
proof (induction evs arbitrary: s)
  case Nil
  then show ?case by (simp add: run_Nil)
next
  case (Cons e evs)
  have k: "keeps_config e" "list_all keeps_config evs"
    using Cons.prems(4) by simp_all
  note st = default_config_step [OF Cons.prems(1,2,3) k(1), of P]
  show ?case
    using Cons.IH [OF st(1,2,3) k(2)] st(4) by (auto simp: run_Cons)
qed

lemma default_config_sessions:
  assumes "list_all keeps_config evs"
  shows "length (sessions (run P evs init)) = (if list_ex is_connection evs then 1 else 0)"
proof -
  have "queryConfig init = JObj []"
    "activeStream init = None \<longrightarrow> sessions init = [] \<and> activeConnection init = None"
    "activeStream init \<noteq> None \<longrightarrow> length (sessions init) = 1"
    "activeStream init = None"
    by (simp_all add: init_def)
  from default_config_run [OF this(1,2,3) assms, of P] this(4)
  show ?thesis by (cases "activeStream (run P evs init)") auto
qed

text \<open>
  Claim C3. In every run \<^verbatim>\<open>query\<close> is called at most once. In a run of connections and
  disconnections (of any events but configuration requests) it has been called exactly
  once as soon as there has been a connection, and not before: the first connection
  creates the stream. In any run at all, a connection accepted while there is no stream
  creates it, provided the stored configuration is not \<^verbatim>\<open>null\<close>; and once there is a
  stream, a connection leaves the sessions and \<^verbatim>\<open>activeStream\<close> as they are, and no
  continuation of the run creates a second stream.
\<close>

theorem stream_created_once:
  "length (sessions (run P evs init)) \<le> 1
   \<and> (list_all keeps_config evs \<longrightarrow>
        length (sessions (run P evs init)) = (if list_ex is_connection evs then 1 else 0))
   \<and> (activeConnection (run P evs init) = None \<and> activeStream (run P evs init) = None
        \<and> queryConfig (run P evs init) \<noteq> JNull \<longrightarrow>
      sessions (run P evs init) = []
      \<and> activeStream (run P (evs @ [Connection w]) init) = Some 0
      \<and> length (sessions (run P (evs @ [Connection w]) init)) = 1)
   \<and> (activeStream (run P evs init) = Some sid \<longrightarrow>
      sessions (run P (evs @ [Connection w]) init) = sessions (run P evs init)
      \<and> activeStream (run P (evs @ [Connection w]) init) = Some sid
      \<and> (\<forall>evs'. length (sessions (run P (evs @ evs') init)) = 1))"
proof -
  let ?s = "run P evs init"
  note inv = stream_once_run [of P evs]
  have a: "length (sessions ?s) \<le> 1"
    using inv by (cases "activeStream ?s") simp_all
  have b: "sessions ?s = []
      \<and> activeStream (run P (evs @ [Connection w]) init) = Some 0
      \<and> length (sessions (run P (evs @ [Connection w]) init)) = 1"
    if "activeConnection ?s = None" "activeStream ?s = None" "queryConfig ?s \<noteq> JNull"
    using inv that connection_creates [OF that, of P w]
    by (simp add: run_append run_Cons run_Nil)
  have c: "sessions (run P (evs @ [Connection w]) init) = sessions ?s
      \<and> activeStream (run P (evs @ [Connection w]) init) = Some sid
      \<and> (\<forall>evs'. length (sessions (run P (evs @ evs') init)) = 1)"
    if "activeStream ?s = Some sid"
    using inv that connection_reuses [OF that, of P w] sessions_length_run [OF that, of P]
    by (simp add: run_append run_Cons run_Nil)
  from a b c default_config_sessions [of evs P] show ?thesis by blast
qed

theorem stream_created_once_witness:
  "list_all keeps_config [Connection 1, WsClose 1, Connection 2, Connection 3, WsClose 2]
   \<and> length (sessions (run node [Connection 1, WsClose 1, Connection 2, Connection 3, WsClose 2]
                init)) = 1
   \<and> activeConnection (run node [] init) = None \<and> activeStream (run node [] init) = None
   \<and> queryConfig (run node [] init) \<noteq> JNull
   \<and> length (sessions (run node ([] @ [Connection 1]) init)) = 1
   \<and> activeStream (run node [Connection 1, WsClose 1] init) = Some 0
   \<and> sessions (run node ([Connection 1, WsClose 1] @ [Connection 2]) init)
       = sessions (run node [Connection 1, WsClose 1] init)
   \<and> length (sessions (run node ([Connection 1, WsClose 1] @
                 [Connection 2, WsClose 2, Http (post_config [''null'']), Connection 3]) init)) = 1"
proof -
  have a: "activeConnection (run node [] init) = None" "activeStream (run node [] init) = None"
    "queryConfig (run node [] init) \<noteq> JNull"
    by (simp_all add: run_def init_def)
  have b: "activeStream (run node [Connection 1, WsClose 1] init) = Some 0"
    by (simp add: run_def handler_defs init_def node_def build_options_def)
  have c: "list_all keeps_config [Connection 1, WsClose 1, Connection 2, Connection 3, WsClose 2]"
    "list_ex is_connection [Connection 1, WsClose 1, Connection 2, Connection 3, WsClose 2]"
    by simp_all
  show ?thesis
    using a b c stream_created_once [of node "[]" 1 0]
      stream_created_once [of node "[Connection 1, WsClose 1]" 2 0]
      stream_created_once [of node "[Connection 1, WsClose 1, Connection 2, Connection 3, WsClose 2]" 4 0]
    by simp
qed

text \<open>
  The proviso of the third part is needed. A stored configuration of \<^verbatim>\<open>null\<close> makes
  \<^verbatim>\<open>queryConfig.anthropicApiKey\<close> throw before \<^verbatim>\<open>query\<close> is called: the connection gets
  the \<^verbatim>\<open>error\<close> envelope of the catch block, then \<^verbatim>\<open>connected\<close>, and there is no stream.
\<close>

theorem null_config_creates_no_stream:
  "sessions (run node [Http (post_config [''null'']), Connection 1] init) = []
   \<and> activeStream (run node [Http (post_config [''null'']), Connection 1] init) = None
   \<and> sent (run node [Http (post_config [''null'']), Connection 1] init) =
       [(1, Error ''Cannot read properties of null (reading 'anthropicApiKey')''),
        (1, Connected)]"
  by (simp add: run_def handler_defs init_def node_def sample_parse_def post_config_def
        build_options_def error_message_def json_response_def JSON_stringify_def)

section \<open>Events without a connection\<close>

text \<open>
  Claim C4. An item of the agent's stream, or a line of its diagnostic output, that
  arrives while no connection is active leaves the whole state as it is: no envelope is
  sent and nothing is stored. So a run with such an event and the run without it end in
  the same state, whatever follows: no later connection is sent the event.
\<close>

theorem event_without_connection_dropped:
  assumes "activeConnection (run P evs s) = None"
  shows "run P (evs @ StreamItem sid m # evs') s = run P (evs @ evs') s
         \<and> run P (evs @ Stderr sid d # evs') s = run P (evs @ evs') s"
  using assms by (simp add: run_append run_Cons stream_item_def stderr_def)

theorem event_without_connection_dropped_witness:
  "activeConnection (run node [Connection 1, WsClose 1] init) = None
   \<and> sent (run node ([Connection 1, WsClose 1] @ StreamItem 0 (JStr ''lost'') #
                       [Connection 2, StreamItem 0 (JStr ''seen'')]) init)
       = [(1, Connected), (2, Connected), (2, SdkMessage (JStr ''seen''))]
   \<and> sent (run node ([Connection 1, WsClose 1] @ Stderr 0 ''warn'' #
                       [Connection 2, StreamItem 0 (JStr ''seen'')]) init)
       = [(1, Connected), (2, Connected), (2, SdkMessage (JStr ''seen''))]"
proof -
  have h: "activeConnection (run node [Connection 1, WsClose 1] init) = None"
    by (simp add: run_def handler_defs init_def node_def build_options_def)
  have r: "sent (run node ([Connection 1, WsClose 1] @ [Connection 2, StreamItem 0 (JStr ''seen'')]) init)
       = [(1, Connected), (2, Connected), (2, SdkMessage (JStr ''seen''))]"
    by (simp add: run_def handler_defs init_def node_def build_options_def)
  show ?thesis
    using h r event_without_connection_dropped
      [OF h, of 0 "JStr ''lost''" "[Connection 2, StreamItem 0 (JStr ''seen'')]" "''warn''"]
    by simp
qed

section \<open>An error of the stream\<close>






section \<open>The configuration endpoint\<close>

text \<open>A value without an infinity is written as it is.\<close>

lemma wire_finite: "finite_numbers v \<Longrightarrow> wire v = v"
proof (induction v)
  case (JArr xs)
  then show ?case by (auto simp: list_all_iff intro!: map_idI)
next
  case (JObj kvs)
  then show ?case by (auto simp: list_all_iff intro!: map_idI)
qed (simp_all split: number.splits)

text \<open>
  The exit: a \<^verbatim>\<open>POST /config\<close> whose body parses to a value on which
  \<^verbatim>\<open>JSON.stringify\<close> throws is not answered; the value is stored and the process exits.
\<close>

lemma stringify_throw_exits:
  assumes "pathname req = ''/config''" "req_method req = ''POST''"
    and "JSON_parse P (concat (chunks req)) = Some v"
    and "stringify_throws P (JObj [(''success'', JBool True), (''config'', v)])"
  shows "requestListener P req s = (None, s\<lparr>queryConfig := v, exited := True\<rparr>)"
  using assms by (simp add: requestListener_def JSON_stringify_def)



text \<open>
  Claim C7, as amended. A \<^verbatim>\<open>POST /config\<close> whose body, as the handler assembles it,
  parses to \<open>v\<close>, and for which \<^verbatim>\<open>JSON.stringify\<close> writes the answers: the stored
  configuration becomes \<open>v\<close>, whatever it was; the answer is 200 with the text of
  \<^verbatim>\<open>{success: true, config: v}\<close>; a \<^verbatim>\<open>GET /config\<close> then returns the text of
  \<^verbatim>\<open>{config: v}\<close>; and of two posts the second one is what is stored and returned. In
  these texts an infinity of \<open>v\<close> is written \<^verbatim>\<open>null\<close>; for \<open>v\<close> without one they denote \<open>v\<close>
  itself.
\<close>

theorem valid_json_replaces:
  assumes "pathname req = ''/config''" "req_method req = ''POST''"
    and "JSON_parse P (concat (chunks req)) = Some v"
    and "pathname req' = ''/config''" "req_method req' = ''POST''"
    and "JSON_parse P (concat (chunks req')) = Some v'"
    and "pathname g = ''/config''" "req_method g = ''GET''"
    and "\<not> stringify_throws P (JObj [(''success'', JBool True), (''config'', v)])"
    and "\<not> stringify_throws P (JObj [(''config'', v)])"
    and "\<not> stringify_throws P (JObj [(''success'', JBool True), (''config'', v')])"
    and "\<not> stringify_throws P (JObj [(''config'', v')])"
  shows "requestListener P req s =
           (Some \<lparr>status = 200, content_type = Some ''application/json'',
              payload = JsonText (JObj [(''success'', JBool True), (''config'', wire v)])\<rparr>,
            s\<lparr>queryConfig := v\<rparr>)
         \<and> requestListener P g (s\<lparr>queryConfig := v\<rparr>) =
           (Some \<lparr>status = 200, content_type = Some ''application/json'',
              payload = JsonText (JObj [(''config'', wire v)])\<rparr>, s\<lparr>queryConfig := v\<rparr>)
         \<and> queryConfig (run P [Http req, Http g] s) = v
         \<and> queryConfig (run P [Http req, Http req'] s) = v'
         \<and> last (responses (run P [Http req, Http req', Http g] s)) =
             \<lparr>status = 200, content_type = Some ''application/json'',
              payload = JsonText (JObj [(''config'', wire v')])\<rparr>
         \<and> (finite_numbers v \<longrightarrow> wire v = v)
         \<and> (finite_numbers v' \<longrightarrow> wire v' = v')"
  using assms
  by (simp add: run_def requestListener_def json_response_def JSON_stringify_def wire_finite)

theorem valid_json_replaces_witness:
  "JSON_parse node (concat (chunks (post_config [''null'']))) = Some JNull
   \<and> JSON_parse node (concat (chunks (post_config [''{\"cwd\": '', ''\"/tmp/x\"}''])))
       = Some (JObj [(''cwd'', JStr ''/tmp/x'')])
   \<and> \<not> stringify_throws node
         (JObj [(''success'', JBool True), (''config'', JObj [(''cwd'', JStr ''/tmp/x'')])])
   \<and> \<not> stringify_throws node (JObj [(''config'', JObj [(''cwd'', JStr ''/tmp/x'')])])
   \<and> \<not> stringify_throws node (JObj [(''success'', JBool True), (''config'', JNull)])
   \<and> \<not> stringify_throws node (JObj [(''config'', JNull)])
   \<and> finite_numbers (JObj [(''cwd'', JStr ''/tmp/x'')]) \<and> finite_numbers JNull
   \<and> queryConfig (run node [Http (post_config [''{\"cwd\": '', ''\"/tmp/x\"}'']),
                             Http get_config] init) = JObj [(''cwd'', JStr ''/tmp/x'')]
   \<and> requestListener node get_config (init\<lparr>queryConfig := JObj [(''cwd'', JStr ''/tmp/x'')]\<rparr>) =
           (Some \<lparr>status = 200, content_type = Some ''application/json'',
              payload = JsonText (JObj [(''config'', JObj [(''cwd'', JStr ''/tmp/x'')])])\<rparr>,
            init\<lparr>queryConfig := JObj [(''cwd'', JStr ''/tmp/x'')]\<rparr>)
   \<and> queryConfig (run node [Http (post_config [''{\"cwd\": '', ''\"/tmp/x\"}'']),
                             Http (post_config [''null''])] init) = JNull"
proof -
  have p: "pathname (post_config [''{\"cwd\": '', ''\"/tmp/x\"}'']) = ''/config''"
      "req_method (post_config [''{\"cwd\": '', ''\"/tmp/x\"}'']) = ''POST''"
      "JSON_parse node (concat (chunks (post_config [''{\"cwd\": '', ''\"/tmp/x\"}''])))
         = Some (JObj [(''cwd'', JStr ''/tmp/x'')])"
      "pathname (post_config [''null'']) = ''/config''"
      "req_method (post_config [''null'']) = ''POST''"
      "JSON_parse node (concat (chunks (post_config [''null'']))) = Some JNull"
      "pathname get_config = ''/config''" "req_method get_config = ''GET''"
      "\<not> stringify_throws node
         (JObj [(''success'', JBool True), (''config'', JObj [(''cwd'', JStr ''/tmp/x'')])])"
      "\<not> stringify_throws node (JObj [(''config'', JObj [(''cwd'', JStr ''/tmp/x'')])])"
      "\<not> stringify_throws node (JObj [(''success'', JBool True), (''config'', JNull)])"
      "\<not> stringify_throws node (JObj [(''config'', JNull)])"
    by (simp_all add: post_config_def get_config_def node_def sample_parse_def)
  have f: "finite_numbers (JObj [(''cwd'', JStr ''/tmp/x'')])" "finite_numbers JNull"
    by simp_all
  show ?thesis
    using p(3,6,9,10,11,12) f valid_json_replaces [OF p, of init] by simp
qed

text \<open>
  The claim as stated fails: the body \<^verbatim>\<open>{"a":1e400}\<close> is a JSON text; \<^verbatim>\<open>JSON.parse\<close>
  reads its number as \<^verbatim>\<open>Infinity\<close>, which is stored, and the \<^verbatim>\<open>GET\<close> returns
  \<^verbatim>\<open>{"config":{"a":null}}\<close>, not the stored value.
\<close>

theorem valid_json_replaces_counterexample:
  "JSON_parse node (concat (chunks (post_config [''{\"a\":1e400}''])))
     = Some (JObj [(''a'', JNum PlusInfinity)])
   \<and> queryConfig (run node [Http (post_config [''{\"a\":1e400}'']), Http get_config] init)
     = JObj [(''a'', JNum PlusInfinity)]
   \<and> map payload (responses (run node [Http (post_config [''{\"a\":1e400}'']),
                                        Http get_config] init))
     = [JsonText (JObj [(''success'', JBool True), (''config'', JObj [(''a'', JNull)])]),
        JsonText (JObj [(''config'', JObj [(''a'', JNull)])])]
   \<and> JObj [(''config'', JObj [(''a'', JNull)])]
     \<noteq> JObj [(''config'', queryConfig (run node [Http (post_config [''{\"a\":1e400}'']),
                                                 Http get_config] init))]"
  by (simp add: run_def requestListener_def json_response_def JSON_stringify_def
        post_config_def get_config_def node_def sample_parse_def init_def)

text \<open>
  Claim C10, as amended. The handler looks at nothing but the outcome of \<^verbatim>\<open>JSON.parse\<close>
  and of \<^verbatim>\<open>JSON.stringify\<close>: a body that parses to any value \<open>v\<close>, an object or not, for
  which \<^verbatim>\<open>JSON.stringify\<close> writes the answers, is answered with 200; \<open>v\<close> is stored in
  place of the configuration, and the next \<^verbatim>\<open>GET /config\<close> returns the text
  \<^verbatim>\<open>JSON.stringify\<close> writes for it: \<open>v\<close> itself when it holds no infinity, and
  \<^verbatim>\<open>null\<close> in the place of each infinity.
\<close>

theorem any_json_accepted:
  assumes "pathname req = ''/config''" "req_method req = ''POST''"
    and "JSON_parse P (concat (chunks req)) = Some v"
    and "pathname g = ''/config''" "req_method g = ''GET''"
    and "\<not> stringify_throws P (JObj [(''success'', JBool True), (''config'', v)])"
    and "\<not> stringify_throws P (JObj [(''config'', v)])"
  shows "run P [Http req, Http g] s =
           s\<lparr>queryConfig := v,
             responses := responses s @
               [\<lparr>status = 200, content_type = Some ''application/json'',
                 payload = JsonText (JObj [(''success'', JBool True), (''config'', wire v)])\<rparr>,
                \<lparr>status = 200, content_type = Some ''application/json'',
                 payload = JsonText (JObj [(''config'', wire v)])\<rparr>]\<rparr>
         \<and> (finite_numbers v \<longrightarrow>
              run P [Http req, Http g] s =
                s\<lparr>queryConfig := v,
                  responses := responses s @
                    [\<lparr>status = 200, content_type = Some ''application/json'',
                      payload = JsonText (JObj [(''success'', JBool True), (''config'', v)])\<rparr>,
                     \<lparr>status = 200, content_type = Some ''application/json'',
                      payload = JsonText (JObj [(''config'', v)])\<rparr>]\<rparr>)"
  using assms
  by (simp add: run_def requestListener_def json_response_def JSON_stringify_def wire_finite)

theorem any_json_accepted_witness:
  "JSON_parse node (concat (chunks (post_config [''null'']))) = Some JNull
   \<and> JSON_parse node (concat (chunks (post_config [''5'']))) = Some (JNum (Finite 5))
   \<and> JSON_parse node (concat (chunks (post_config [''\"abc\"'']))) = Some (JStr ''abc'')
   \<and> \<not> stringify_throws node (JObj [(''success'', JBool True), (''config'', JNull)])
   \<and> \<not> stringify_throws node (JObj [(''config'', JNull)])
   \<and> \<not> stringify_throws node (JObj [(''success'', JBool True), (''config'', JNum (Finite 5))])
   \<and> \<not> stringify_throws node (JObj [(''config'', JNum (Finite 5))])
   \<and> \<not> stringify_throws node (JObj [(''success'', JBool True), (''config'', JStr ''abc'')])
   \<and> \<not> stringify_throws node (JObj [(''config'', JStr ''abc'')])
   \<and> finite_numbers JNull \<and> finite_numbers (JNum (Finite 5)) \<and> finite_numbers (JStr ''abc'')
   \<and> map payload (responses (run node [Http (post_config [''null'']), Http get_config] init)) =
       [JsonText (JObj [(''success'', JBool True), (''config'', JNull)]),
        JsonText (JObj [(''config'', JNull)])]
   \<and> map payload (responses (run node [Http (post_config [''5'']), Http get_config] init)) =
       [JsonText (JObj [(''success'', JBool True), (''config'', JNum (Finite 5))]),
        JsonText (JObj [(''config'', JNum (Finite 5))])]
   \<and> map status (responses (run node [Http (post_config [''5'']), Http get_config] init)) =
       [200, 200]
   \<and> queryConfig (run node [Http (post_config [''\"abc\"'']), Http get_config] init) = JStr ''abc''"
proof -
  have g: "pathname get_config = ''/config''" "req_method get_config = ''GET''"
    by (simp_all add: get_config_def)
  have p: "pathname (post_config cs) = ''/config''" "req_method (post_config cs) = ''POST''" for cs
    by (simp_all add: post_config_def)
  have j: "JSON_parse node (concat (chunks (post_config [''null'']))) = Some JNull"
      "JSON_parse node (concat (chunks (post_config [''5'']))) = Some (JNum (Finite 5))"
      "JSON_parse node (concat (chunks (post_config [''\"abc\"'']))) = Some (JStr ''abc'')"
    by (simp_all add: post_config_def node_def sample_parse_def)
  have n: "\<not> stringify_throws node (JObj [(''success'', JBool True), (''config'', JNull)])"
      "\<not> stringify_throws node (JObj [(''config'', JNull)])"
      "\<not> stringify_throws node (JObj [(''success'', JBool True), (''config'', JNum (Finite 5))])"
      "\<not> stringify_throws node (JObj [(''config'', JNum (Finite 5))])"
      "\<not> stringify_throws node (JObj [(''success'', JBool True), (''config'', JStr ''abc'')])"
      "\<not> stringify_throws node (JObj [(''config'', JStr ''abc'')])"
    by (simp_all add: node_def)
  have f: "finite_numbers JNull" "finite_numbers (JNum (Finite 5))" "finite_numbers (JStr ''abc'')"
    by simp_all
  show ?thesis
    using j n f any_json_accepted [OF p j(1) g n(1,2), of init]
      any_json_accepted [OF p j(2) g n(3,4), of init]
      any_json_accepted [OF p j(3) g n(5,6), of init]
    by (simp add: init_def)
qed

text \<open>
  The claim as stated fails: the body \<^verbatim>\<open>1e400\<close> is a JSON text, a number; it is
  accepted with 200 and stored as \<^verbatim>\<open>Infinity\<close>, and the \<^verbatim>\<open>GET\<close> returns
  \<^verbatim>\<open>{"config":null}\<close>, not the number.
\<close>

theorem any_json_accepted_counterexample:
  "JSON_parse node (concat (chunks (post_config [''1e400'']))) = Some (JNum PlusInfinity)
   \<and> queryConfig (run node [Http (post_config [''1e400'']), Http get_config] init)
     = JNum PlusInfinity
   \<and> responses (run node [Http (post_config [''1e400'']), Http get_config] init)
     = [\<lparr>status = 200, content_type = Some ''application/json'',
         payload = JsonText (JObj [(''success'', JBool True), (''config'', JNull)])\<rparr>,
        \<lparr>status = 200, content_type = Some ''application/json'',
         payload = JsonText (JObj [(''config'', JNull)])\<rparr>]
   \<and> JObj [(''config'', JNull)] \<noteq> JObj [(''config'', JNum PlusInfinity)]"
  by (simp add: run_def requestListener_def json_response_def JSON_stringify_def
        post_config_def get_config_def node_def sample_parse_def init_def)

section \<open>The environment of the session\<close>

lemma build_options_env:
  assumes "anthropicApiKey cfg = Inr key"
  shows "\<exists>opts. build_options P cfg = Inr opts
           \<and> opts ''env'' = (if truthy key then Some (env_override P key)
                             else own_props cfg ''env'')"
  using assms by (simp add: build_options_def map_add_def default_options_def
                    split: option.splits)

lemma build_options_process_env:
  assumes "env' ''PATH'' = process_env P ''PATH''"
  shows "build_options (P\<lparr>process_env := env'\<rparr>) cfg = build_options P cfg"
  using assms
  by (simp add: build_options_def default_options_def env_override_def env_var_def
        split: sum.splits)

lemma processMessages_session:
  assumes "build_options P (queryConfig s) = Inr opts"
  shows "processMessages P s =
           s\<lparr>activeStream := Some (length (sessions s)),
             sessions := sessions s @
               [\<lparr>session_options = opts, iterating = True, pending = 0\<rparr>]\<rparr>"
  using assms by (simp add: processMessages_def)

text \<open>
  Claim C8, as amended. When \<^verbatim>\<open>processMessages\<close> creates the session from a stored
  configuration that is not \<^verbatim>\<open>null\<close>: with a truthy \<^verbatim>\<open>anthropicApiKey\<close> the \<^verbatim>\<open>env\<close>
  of the options is \<^verbatim>\<open>PATH\<close> of the process and \<^verbatim>\<open>ANTHROPIC_API_KEY\<close>; otherwise the
  server adds no \<^verbatim>\<open>env\<close>, and the \<^verbatim>\<open>env\<close> of the options is the one the
  configuration itself carries, none if it carries none.
\<close>

theorem credential_env_injection:
  assumes "anthropicApiKey (queryConfig s) = Inr key"
  shows "\<exists>opts. sessions (processMessages P s) =
                  sessions s @ [\<lparr>session_options = opts, iterating = True, pending = 0\<rparr>]
           \<and> (truthy key \<longrightarrow>
                opts ''env'' = Some (ObjectLit [(''PATH'', env_var P ''PATH''),
                                               (''ANTHROPIC_API_KEY'', key)]))
           \<and> (\<not> truthy key \<longrightarrow> opts ''env'' = own_props (queryConfig s) ''env'')
           \<and> (\<not> truthy key \<and> own_props (queryConfig s) ''env'' = None \<longrightarrow>
                opts ''env'' = None)"
proof -
  obtain opts where o: "build_options P (queryConfig s) = Inr opts"
    "opts ''env'' = (if truthy key then Some (env_override P key)
                     else own_props (queryConfig s) ''env'')"
    using build_options_env [OF assms, of P] by blast
  show ?thesis
    using o(2) processMessages_session [OF o(1)]
    by (auto simp: env_override_def)
qed

theorem credential_env_injection_witness:
  "anthropicApiKey (queryConfig (init\<lparr>queryConfig := JObj [(''anthropicApiKey'', JStr ''sk-1'')]\<rparr>))
     = Inr (Json (JStr ''sk-1''))
   \<and> truthy (Json (JStr ''sk-1''))
   \<and> anthropicApiKey (queryConfig (init\<lparr>queryConfig := JObj [(''anthropicApiKey'', JStr [])]\<rparr>))
     = Inr (Json (JStr []))
   \<and> \<not> truthy (Json (JStr []))
   \<and> own_props (queryConfig (init\<lparr>queryConfig := JObj [(''anthropicApiKey'', JStr [])]\<rparr>)) ''env''
     = None
   \<and> (\<exists>opts. sessions (processMessages node
                  (init\<lparr>queryConfig := JObj [(''anthropicApiKey'', JStr ''sk-1'')]\<rparr>)) =
                [\<lparr>session_options = opts, iterating = True, pending = 0\<rparr>]
        \<and> opts ''env'' = Some (ObjectLit [(''PATH'', Json (JStr ''/usr/bin'')),
                                           (''ANTHROPIC_API_KEY'', Json (JStr ''sk-1''))]))
   \<and> (\<exists>opts. sessions (processMessages node
                  (init\<lparr>queryConfig := JObj [(''anthropicApiKey'', JStr [])]\<rparr>)) =
                [\<lparr>session_options = opts, iterating = True, pending = 0\<rparr>]
        \<and> opts ''env'' = None)"
proof -
  let ?a = "init\<lparr>queryConfig := JObj [(''anthropicApiKey'', JStr ''sk-1'')]\<rparr>"
  let ?b = "init\<lparr>queryConfig := JObj [(''anthropicApiKey'', JStr [])]\<rparr>"
  have a: "anthropicApiKey (queryConfig ?a) = Inr (Json (JStr ''sk-1''))" by simp
  have b: "anthropicApiKey (queryConfig ?b) = Inr (Json (JStr []))" by simp
  have c: "own_props (queryConfig ?b) ''env'' = None" by simp
  have p: "env_var node ''PATH'' = Json (JStr ''/usr/bin'')"
    by (simp add: env_var_def node_def)
  show ?thesis
    using a b c credential_env_injection [OF a, of node] credential_env_injection [OF b, of node]
    by (simp add: p init_def)
qed

text \<open>
  The claim as stated fails: a configuration with no \<^verbatim>\<open>anthropicApiKey\<close> and an
  \<^verbatim>\<open>env\<close> of its own gives options with that \<^verbatim>\<open>env\<close>, through the spread.
\<close>

theorem env_without_credential_counterexample:
  "queryConfig (run node [Http (post_config [''{\"env\": {\"FOO\": \"bar\"}}''])] init)
     = JObj [(''env'', JObj [(''FOO'', JStr ''bar'')])]
   \<and> anthropicApiKey (JObj [(''env'', JObj [(''FOO'', JStr ''bar'')])]) = Inr Undefined
   \<and> map (\<lambda>x. session_options x ''env'')
        (sessions (run node [Http (post_config [''{\"env\": {\"FOO\": \"bar\"}}'']),
                             Connection 1] init))
     = [Some (Json (JObj [(''FOO'', JStr ''bar'')]))]"
  by (simp add: run_def handler_defs init_def node_def sample_parse_def post_config_def
        build_options_def json_response_def default_options_def JSON_stringify_def)

text \<open>
  Claim C9. With a truthy \<^verbatim>\<open>anthropicApiKey\<close> the \<^verbatim>\<open>env\<close> of the options has two
  variables, \<^verbatim>\<open>PATH\<close> with the value of the process and \<^verbatim>\<open>ANTHROPIC_API_KEY\<close> with
  the credential, and it is the same for every other environment of the process that
  agrees on \<^verbatim>\<open>PATH\<close>: no other variable of the process enters it.
\<close>

theorem credential_env_exactly_two:
  assumes "anthropicApiKey cfg = Inr key" and "truthy key"
  shows "\<exists>opts. build_options P cfg = Inr opts
           \<and> opts ''env'' = Some (ObjectLit [(''PATH'', env_var P ''PATH''),
                                              (''ANTHROPIC_API_KEY'', key)])
           \<and> (\<forall>env'. env' ''PATH'' = process_env P ''PATH'' \<longrightarrow>
                 build_options (P\<lparr>process_env := env'\<rparr>) cfg = Inr opts)"
proof -
  obtain opts where o: "build_options P cfg = Inr opts"
    "opts ''env'' = Some (env_override P key)"
    using build_options_env [OF assms(1), of P] assms(2) by auto
  show ?thesis
    using o by (simp add: env_override_def build_options_process_env)
qed

theorem credential_env_exactly_two_witness:
  "anthropicApiKey (JObj [(''anthropicApiKey'', JStr ''sk-1'')]) = Inr (Json (JStr ''sk-1''))
   \<and> truthy (Json (JStr ''sk-1''))
   \<and> [''PATH'' \<mapsto> ''/usr/bin''] ''PATH'' = process_env node ''PATH''
   \<and> (\<exists>opts. build_options node (JObj [(''anthropicApiKey'', JStr ''sk-1'')]) = Inr opts
        \<and> opts ''env'' = Some (ObjectLit [(''PATH'', Json (JStr ''/usr/bin'')),
                                           (''ANTHROPIC_API_KEY'', Json (JStr ''sk-1''))])
        \<and> build_options (node\<lparr>process_env := [''PATH'' \<mapsto> ''/usr/bin'']\<rparr>)
             (JObj [(''anthropicApiKey'', JStr ''sk-1'')]) = Inr opts)"
proof -
  have a: "anthropicApiKey (JObj [(''anthropicApiKey'', JStr ''sk-1'')]) = Inr (Json (JStr ''sk-1''))"
    by simp
  have t: "truthy (Json (JStr ''sk-1''))" by simp
  have p: "env_var node ''PATH'' = Json (JStr ''/usr/bin'')"
    by (simp add: env_var_def node_def)
  have e: "[''PATH'' \<mapsto> ''/usr/bin''] ''PATH'' = process_env node ''PATH''"
    by (simp add: node_def)
  obtain opts where o: "build_options node (JObj [(''anthropicApiKey'', JStr ''sk-1'')]) = Inr opts"
    "opts ''env'' = Some (ObjectLit [(''PATH'', env_var node ''PATH''),
                                     (''ANTHROPIC_API_KEY'', Json (JStr ''sk-1''))])"
    "\<forall>env'. env' ''PATH'' = process_env node ''PATH'' \<longrightarrow>
       build_options (node\<lparr>process_env := env'\<rparr>) (JObj [(''anthropicApiKey'', JStr ''sk-1'')])
         = Inr opts"
    using credential_env_exactly_two [OF a t, of node] by blast
  from o(3) e have "build_options (node\<lparr>process_env := [''PATH'' \<mapsto> ''/usr/bin'']\<rparr>)
             (JObj [(''anthropicApiKey'', JStr ''sk-1'')]) = Inr opts"
    by blast
  with a t e o(1,2) p show ?thesis by simp
qed

end
